theory Spec2Isabelle
  imports Main
begin

section \<open>The finite state machine of \<^verbatim>\<open>src/fsm.ts\<close>\<close>

text \<open>
  The engine is generic in the state type \<^verbatim>\<open>T\<close> (here \<open>'s\<close>). States are compared
  with \<^verbatim>\<open>===\<close>, which is HOL equality on \<open>'s\<close>, and they are turned into registry keys
  with \<^verbatim>\<open>toString()\<close>, which is a parameter \<open>key :: 's \<Rightarrow> string\<close> of every operation
  that uses it. Nothing is assumed about \<open>key\<close>; in particular it need not be injective.

  Callbacks are closures of the embedding application. A callback is invoked as
  \<^verbatim>\<open>next.call(this)\<close>: it is modelled as a function that reads the engine's
  \<^verbatim>\<open>currentState\<close> at the moment of the call, acts on the application's own state
  \<open>'w\<close>, and returns normally. A callback that throws, or that calls back into the
  engine it is registered on, is outside the model.

  The engine itself raises two kinds of error: the \<^verbatim>\<open>Error\<close> that \<^verbatim>\<open>go\<close> throws for
  a transition that is not declared, and the \<^verbatim>\<open>TypeError\<close> of the runtime when a
  registry entry that is not an array is used as one.
\<close>

subsection \<open>Data\<close>

text \<open>
  \<^verbatim>\<open>class TransitionFunction<T>\<close>: the fields \<^verbatim>\<open>from\<close> and \<^verbatim>\<open>to\<close>. The third field,
  \<^verbatim>\<open>fsm\<close>, is a back reference to the owning engine that no method reads.
\<close>

record 's TransitionFunction =
  tf_from :: 's
  tf_to :: 's

text \<open>
  \<^verbatim>\<open>class Transitions<T>\<close>, the fluent builder. Its \<^verbatim>\<open>fsm\<close> reference is passed
  explicitly to \<open>Transitions_to\<close> below.
\<close>

record 's Transitions =
  fromStates :: "'s list"
  toStates :: "'s list"

text \<open>
  A guard callback returns the boolean and the application state it leaves; an on-commit
  callback returns only the latter. The first argument is the \<^verbatim>\<open>currentState\<close> of the
  engine the callback is called on.
\<close>

type_synonym ('s, 'w) guard_callback = "'s \<Rightarrow> 'w \<Rightarrow> bool \<times> 'w"

type_synonym ('s, 'w) on_callback = "'s \<Rightarrow> 'w \<Rightarrow> 'w"

text \<open>
  \<^verbatim>\<open>class FiniteStateMachine<T>\<close>. The three registries are objects created as
  \<^verbatim>\<open>{}\<close> and used as dictionaries from a key to an array of callbacks. A field of
  the record holds the own properties of the object, the arrays the engine stored; what
  a read \<^verbatim>\<open>reg[key]\<close> finds beyond them is \<open>get_property\<close> below.
\<close>

record ('s, 'w) FiniteStateMachine =
  currentState :: 's
  startState :: 's
  transitionFunctions :: "'s TransitionFunction list"
  onCallbacks :: "string \<rightharpoonup> ('s, 'w) on_callback list"
  exitCallbacks :: "string \<rightharpoonup> ('s, 'w) guard_callback list"
  enterCallbacks :: "string \<rightharpoonup> ('s, 'w) guard_callback list"

datatype error = Error string | TypeError

text \<open>The engine together with the application state its callbacks act on.\<close>

type_synonym ('s, 'w) config = "('s, 'w) FiniteStateMachine \<times> 'w"

subsection \<open>Construction and edge registration\<close>

definition newFiniteStateMachine :: "'s \<Rightarrow> ('s, 'w) FiniteStateMachine" where
  "newFiniteStateMachine start =
     \<lparr>currentState = start, startState = start, transitionFunctions = [],
      onCallbacks = Map.empty, exitCallbacks = Map.empty, enterCallbacks = Map.empty\<rparr>"

definition validTransition :: "('s, 'w) FiniteStateMachine \<Rightarrow> 's \<Rightarrow> 's \<Rightarrow> bool" where
  "validTransition m from to =
     list_ex (\<lambda>tf. tf_from tf = from \<and> tf_to tf = to) (transitionFunctions m)"

text \<open>The body of the inner \<^verbatim>\<open>forEach\<close> of \<^verbatim>\<open>addTransitions\<close>, for one pair.\<close>

definition addTransition ::
  "('s, 'w) FiniteStateMachine \<Rightarrow> 's \<Rightarrow> 's \<Rightarrow> ('s, 'w) FiniteStateMachine" where
  "addTransition m from to =
     (if from \<noteq> to \<and> \<not> validTransition m from to
      then m\<lparr>transitionFunctions :=
               transitionFunctions m @ [\<lparr>tf_from = from, tf_to = to\<rparr>]\<rparr>
      else m)"

definition addTransitions ::
  "'s Transitions \<Rightarrow> ('s, 'w) FiniteStateMachine \<Rightarrow> ('s, 'w) FiniteStateMachine" where
  "addTransitions fcn m =
     foldl (\<lambda>m1 from. foldl (\<lambda>m2 to. addTransition m2 from to) m1 (toStates fcn))
       m (fromStates fcn)"

text \<open>
  \<^verbatim>\<open>from(...states)\<close> allocates a builder and stores the source states in it; the
  engine is returned as it was. The builder's \<^verbatim>\<open>toStates\<close> is not assigned yet: the
  empty list stands for it, and \<open>Transitions_to\<close> overwrites it before it is read.
\<close>

definition from_states ::
  "'s list \<Rightarrow> ('s, 'w) FiniteStateMachine \<Rightarrow> 's Transitions \<times> ('s, 'w) FiniteStateMachine" where
  "from_states states m = (\<lparr>fromStates = states, toStates = []\<rparr>, m)"

definition Transitions_to ::
  "'s Transitions \<Rightarrow> 's list \<Rightarrow> ('s, 'w) FiniteStateMachine \<Rightarrow> ('s, 'w) FiniteStateMachine" where
  "Transitions_to fcn states m = addTransitions (fcn\<lparr>toStates := states\<rparr>) m"

subsection \<open>Registries\<close>

text \<open>
  The properties that an object created as \<^verbatim>\<open>{}\<close> inherits from
  \<^verbatim>\<open>Object.prototype\<close> (ECMAScript, with its annex B). Each of them is a function or
  an object: truthy, and not an array.
\<close>

definition Object_prototype_properties :: "string list" where
  "Object_prototype_properties =
     [''constructor'', ''toString'', ''toLocaleString'', ''valueOf'', ''hasOwnProperty'',
      ''isPrototypeOf'', ''propertyIsEnumerable'', ''__proto__'', ''__defineGetter__'',
      ''__defineSetter__'', ''__lookupGetter__'', ''__lookupSetter__'']"

text \<open>
  The value of \<^verbatim>\<open>reg[key]\<close>: the array stored under the key; without one, the
  inherited property of that name; without one, \<^verbatim>\<open>undefined\<close>.
\<close>

datatype 'a property = Undefined | Array "'a list" | Inherited

definition get_property :: "(string \<rightharpoonup> 'a list) \<Rightarrow> string \<Rightarrow> 'a property" where
  "get_property reg k =
     (case reg k of
        Some cbs \<Rightarrow> Array cbs
      | None \<Rightarrow> if k \<in> set Object_prototype_properties then Inherited else Undefined)"

text \<open>
  \<^verbatim>\<open>if (!reg[key]) { reg[key] = []; }\<close>: only \<^verbatim>\<open>undefined\<close> is falsy.
\<close>

definition ensure_key :: "string \<Rightarrow> (string \<rightharpoonup> 'a list) \<Rightarrow> (string \<rightharpoonup> 'a list)" where
  "ensure_key k reg =
     (case get_property reg k of
        Undefined \<Rightarrow> reg(k \<mapsto> [])
      | Array cbs \<Rightarrow> reg
      | Inherited \<Rightarrow> reg)"

text \<open>
  \<^verbatim>\<open>reg[key].push(callback)\<close>: a value that is not an array has no \<^verbatim>\<open>push\<close>, and
  the call throws.
\<close>

definition push_callback ::
  "string \<Rightarrow> 'a \<Rightarrow> (string \<rightharpoonup> 'a list) \<Rightarrow> error + (string \<rightharpoonup> 'a list)" where
  "push_callback k cb reg =
     (case get_property reg k of
        Undefined \<Rightarrow> Inl TypeError
      | Array cbs \<Rightarrow> Inr (reg(k \<mapsto> cbs @ [cb]))
      | Inherited \<Rightarrow> Inl TypeError)"

subsection \<open>Callback registration\<close>

text \<open>
  \<^verbatim>\<open>on\<close>, \<^verbatim>\<open>onEnter\<close> and \<^verbatim>\<open>onExit\<close> return the error they throw, or unit for the
  returned \<^verbatim>\<open>this\<close>, together with the engine as the call leaves it.
\<close>

definition on ::
  "('s \<Rightarrow> string) \<Rightarrow> 's \<Rightarrow> ('s, 'w) on_callback \<Rightarrow> ('s, 'w) FiniteStateMachine
     \<Rightarrow> (error + unit) \<times> ('s, 'w) FiniteStateMachine" where
  "on key state callback m =
     (let k = key state;
          m1 = m\<lparr>onCallbacks := ensure_key k (onCallbacks m)\<rparr>
      in case push_callback k callback (onCallbacks m1) of
           Inl e \<Rightarrow> (Inl e, m1)
         | Inr reg \<Rightarrow> (Inr (), m1\<lparr>onCallbacks := reg\<rparr>))"

definition onEnter ::
  "('s \<Rightarrow> string) \<Rightarrow> 's \<Rightarrow> ('s, 'w) guard_callback \<Rightarrow> ('s, 'w) FiniteStateMachine
     \<Rightarrow> (error + unit) \<times> ('s, 'w) FiniteStateMachine" where
  "onEnter key state callback m =
     (let k = key state;
          m1 = m\<lparr>enterCallbacks := ensure_key k (enterCallbacks m)\<rparr>
      in case push_callback k callback (enterCallbacks m1) of
           Inl e \<Rightarrow> (Inl e, m1)
         | Inr reg \<Rightarrow> (Inr (), m1\<lparr>enterCallbacks := reg\<rparr>))"

definition onExit ::
  "('s \<Rightarrow> string) \<Rightarrow> 's \<Rightarrow> ('s, 'w) guard_callback \<Rightarrow> ('s, 'w) FiniteStateMachine
     \<Rightarrow> (error + unit) \<times> ('s, 'w) FiniteStateMachine" where
  "onExit key state callback m =
     (let k = key state;
          m1 = m\<lparr>exitCallbacks := ensure_key k (exitCallbacks m)\<rparr>
      in case push_callback k callback (exitCallbacks m1) of
           Inl e \<Rightarrow> (Inl e, m1)
         | Inr reg \<Rightarrow> (Inr (), m1\<lparr>exitCallbacks := reg\<rparr>))"

subsection \<open>Queries, transition and reset\<close>

definition canGo :: "('s, 'w) FiniteStateMachine \<Rightarrow> 's \<Rightarrow> bool" where
  "canGo m state \<longleftrightarrow> currentState m = state \<or> validTransition m (currentState m) state"

text \<open>
  \<^verbatim>\<open>callbacks.reduce((accum, next) => accum && next.call(this), accum0)\<close> on an array.
  The reduce visits every element; \<^verbatim>\<open>&&\<close> evaluates its right operand, the call, only
  when \<^verbatim>\<open>accum\<close> is true.
\<close>

fun reduce_guards ::
  "('s, 'w) guard_callback list \<Rightarrow> 's \<Rightarrow> bool \<Rightarrow> 'w \<Rightarrow> bool \<times> 'w" where
  "reduce_guards [] this accum w = (accum, w)"
| "reduce_guards (next # rest) this accum w =
     (if accum
      then (case next this w of (b, w') \<Rightarrow> reduce_guards rest this b w')
      else reduce_guards rest this False w)"

text \<open>\<^verbatim>\<open>callbacks.forEach(fcn => { fcn.call(this); })\<close> on an array.\<close>

fun forEach_call :: "('s, 'w) on_callback list \<Rightarrow> 's \<Rightarrow> 'w \<Rightarrow> 'w" where
  "forEach_call [] this w = w"
| "forEach_call (fcn # rest) this w = forEach_call rest this (fcn this w)"

text \<open>
  \<^verbatim>\<open>_transitionTo\<close>. The three registry entries are ensured first. Each of
  \<^verbatim>\<open>.reduce\<close>, \<^verbatim>\<open>.reduce\<close> and \<^verbatim>\<open>.forEach\<close> is then called on what the read of the
  entry gives, and throws when that is not an array; the engine and the application state
  are then as the statements before the throw left them.
\<close>

definition transitionTo ::
  "('s \<Rightarrow> string) \<Rightarrow> 's \<Rightarrow> ('s, 'w) config \<Rightarrow> (error + unit) \<times> ('s, 'w) config" where
  "transitionTo key state c =
     (case c of (m, w) \<Rightarrow>
        let m1 = m\<lparr>exitCallbacks := ensure_key (key (currentState m)) (exitCallbacks m)\<rparr>;
            m2 = m1\<lparr>enterCallbacks := ensure_key (key state) (enterCallbacks m1)\<rparr>;
            m3 = m2\<lparr>onCallbacks := ensure_key (key state) (onCallbacks m2)\<rparr>
        in case get_property (exitCallbacks m3) (key (currentState m3)) of
             Undefined \<Rightarrow> (Inl TypeError, (m3, w))
           | Inherited \<Rightarrow> (Inl TypeError, (m3, w))
           | Array exits \<Rightarrow>
               (case reduce_guards exits (currentState m3) True w of (canExit, w1) \<Rightarrow>
                  (case get_property (enterCallbacks m3) (key state) of
                     Undefined \<Rightarrow> (Inl TypeError, (m3, w1))
                   | Inherited \<Rightarrow> (Inl TypeError, (m3, w1))
                   | Array enters \<Rightarrow>
                       (case reduce_guards enters (currentState m3) True w1 of
                          (canEnter, w2) \<Rightarrow>
                            if canExit \<and> canEnter
                            then let m4 = m3\<lparr>currentState := state\<rparr>
                                 in (case get_property (onCallbacks m4)
                                            (key (currentState m4)) of
                                       Undefined \<Rightarrow> (Inl TypeError, (m4, w2))
                                     | Inherited \<Rightarrow> (Inl TypeError, (m4, w2))
                                     | Array ons \<Rightarrow>
                                         (Inr (), (m4, forEach_call ons (currentState m4) w2)))
                            else (Inr (), (m3, w2))))))"

text \<open>
  \<^verbatim>\<open>go\<close> returns the error it throws, or unit, together with the engine and the
  application state as the call leaves them.
\<close>

definition go ::
  "('s \<Rightarrow> string) \<Rightarrow> 's \<Rightarrow> ('s, 'w) config \<Rightarrow> (error + unit) \<times> ('s, 'w) config" where
  "go key state c =
     (case c of (m, w) \<Rightarrow>
        if \<not> canGo m state
        then (Inl (Error (''Error no transition function exists from state ''
                            @ key (currentState m) @ '' to '' @ key state)), (m, w))
        else transitionTo key state (m, w))"

definition reset :: "('s, 'w) config \<Rightarrow> ('s, 'w) config" where
  "reset c = (case c of (m, w) \<Rightarrow> (m\<lparr>currentState := startState m\<rparr>, w))"

subsection \<open>Sequences of calls\<close>

text \<open>
  One call of a public method on the engine, by the embedding application. An error that
  a call throws is caught by the caller, and the engine lives on.
\<close>

datatype ('s, 'w) call =
    Call_from "'s list"
  | Call_to "'s Transitions" "'s list"
  | Call_addTransitions "'s Transitions"
  | Call_on 's "('s, 'w) on_callback"
  | Call_onEnter 's "('s, 'w) guard_callback"
  | Call_onExit 's "('s, 'w) guard_callback"
  | Call_canGo 's
  | Call_go 's
  | Call_reset

fun perform :: "('s \<Rightarrow> string) \<Rightarrow> ('s, 'w) config \<Rightarrow> ('s, 'w) call \<Rightarrow> ('s, 'w) config" where
  "perform key (m, w) (Call_from states) = (snd (from_states states m), w)"
| "perform key (m, w) (Call_to fcn states) = (Transitions_to fcn states m, w)"
| "perform key (m, w) (Call_addTransitions fcn) = (addTransitions fcn m, w)"
| "perform key (m, w) (Call_on state cb) = (snd (on key state cb m), w)"
| "perform key (m, w) (Call_onEnter state cb) = (snd (onEnter key state cb m), w)"
| "perform key (m, w) (Call_onExit state cb) = (snd (onExit key state cb m), w)"
| "perform key (m, w) (Call_canGo state) = (m, w)"
| "perform key (m, w) (Call_go state) = snd (go key state (m, w))"
| "perform key (m, w) Call_reset = reset (m, w)"

definition perform_all ::
  "('s \<Rightarrow> string) \<Rightarrow> ('s, 'w) call list \<Rightarrow> ('s, 'w) config \<Rightarrow> ('s, 'w) config" where
  "perform_all key calls c = foldl (perform key) c calls"

subsection \<open>Notions used in the properties\<close>

text \<open>
  The callbacks registered under a key: the array stored under it, and none when no
  array is stored. The operations above do not use this function.
\<close>

definition registered :: "(string \<rightharpoonup> 'a list) \<Rightarrow> string \<Rightarrow> 'a list" where
  "registered reg k = (case reg k of None \<Rightarrow> [] | Some cbs \<Rightarrow> cbs)"

text \<open>
  A key that reads as a registry entry of its own: it does not name an inherited
  property. The decimal keys of a numeric enumeration, which the source says the engine
  is meant for, are of this kind.
\<close>

definition plain_key :: "string \<Rightarrow> bool" where
  "plain_key k \<longleftrightarrow> k \<notin> set Object_prototype_properties"

text \<open>
  The guard fold as section 4.5 of the specification words it: an unconditional AND
  fold in which every callback executes, whatever the earlier ones returned.
\<close>

fun guards_without_short_circuit ::
  "('s, 'w) guard_callback list \<Rightarrow> 's \<Rightarrow> bool \<Rightarrow> 'w \<Rightarrow> bool \<times> 'w" where
  "guards_without_short_circuit [] this accum w = (accum, w)"
| "guards_without_short_circuit (next # rest) this accum w =
     (case next this w of (b, w') \<Rightarrow> guards_without_short_circuit rest this (accum \<and> b) w')"

text \<open>
  The guard fold that stops calling: the callbacks are called in order, up to and
  including the first one that returns false; the ones after it are not called.
\<close>

fun guards_until_false :: "('s, 'w) guard_callback list \<Rightarrow> 's \<Rightarrow> 'w \<Rightarrow> bool \<times> 'w" where
  "guards_until_false [] this w = (True, w)"
| "guards_until_false (next # rest) this w =
     (case next this w of (b, w') \<Rightarrow> if b then guards_until_false rest this w' else (False, w'))"

text \<open>Well-formed edge lists.\<close>

definition edges_ok :: "'s TransitionFunction list \<Rightarrow> bool" where
  "edges_ok es \<longleftrightarrow> distinct es \<and> (\<forall>tf\<in>set es. tf_from tf \<noteq> tf_to tf)"

subsection \<open>Concrete machines\<close>

text \<open>
  The scenario of section 8 of the specification: the states Idle, Running and Done of a
  numeric enumeration, whose \<^verbatim>\<open>toString()\<close> is the decimal index; the edges
  Idle \<open>\<rightarrow>\<close> Running and Running \<open>\<rightarrow>\<close> Done; start state Idle.
\<close>

datatype phase = Idle | Running | Done

fun phase_key :: "phase \<Rightarrow> string" where
  "phase_key Idle = ''0''"
| "phase_key Running = ''1''"
| "phase_key Done = ''2''"

text \<open>
  Callbacks that leave a trace: the application state is a log, and a callback appends
  its own number and the \<^verbatim>\<open>currentState\<close> it was called with. A guard returns the
  fixed boolean \<open>b\<close>.
\<close>

type_synonym 's log = "(nat \<times> 's) list"

definition log_guard :: "nat \<Rightarrow> bool \<Rightarrow> ('s, 's log) guard_callback" where
  "log_guard i b this w = (b, w @ [(i, this)])"

definition log_on :: "nat \<Rightarrow> ('s, 's log) on_callback" where
  "log_on i this w = w @ [(i, this)]"

definition idle_running_done :: "(phase, phase log) FiniteStateMachine" where
  "idle_running_done =
     (let m0 = newFiniteStateMachine Idle;
          m1 = Transitions_to (fst (from_states [Idle] m0)) [Running] m0
      in Transitions_to (fst (from_states [Running] m1)) [Done] m1)"

text \<open>
  The machine above with two exit guards on Idle (1 and 2), two enter guards on Running
  (3 and 4) and two on-commit callbacks on Running (5 and 6), registered in this order.
  Guards 2 and 4 return true; guard 1 returns \<open>b1\<close> and guard 3 returns \<open>b3\<close>.
\<close>

definition guarded_fsm :: "bool \<Rightarrow> bool \<Rightarrow> (phase, phase log) FiniteStateMachine" where
  "guarded_fsm b1 b3 =
     fst (perform_all phase_key
       [Call_onExit Idle (log_guard 1 b1),
        Call_onExit Idle (log_guard 2 True),
        Call_onEnter Running (log_guard 3 b3),
        Call_onEnter Running (log_guard 4 True),
        Call_on Running (log_on 5),
        Call_on Running (log_on 6)]
       (idle_running_done, []))"

text \<open>
  A session on a fresh engine: register the edges from Idle and Running to Running, Running
  (again) and Idle, listen on Running, go there, ask for an undeclared transition to Done.
\<close>

definition example_calls :: "(phase, phase log) call list" where
  "example_calls =
     [Call_from [Idle, Running],
      Call_to \<lparr>fromStates = [Idle, Running], toStates = []\<rparr> [Running, Running, Idle],
      Call_on Running (log_on 7),
      Call_go Running,
      Call_go Done]"

text \<open>
  Engines whose states are strings, which are their own \<^verbatim>\<open>toString()\<close>, and one of
  whose states is named \<^verbatim>\<open>constructor\<close>. The first starts at \<^verbatim>\<open>a\<close>, has the edge
  from \<^verbatim>\<open>a\<close> to \<^verbatim>\<open>constructor\<close> and the given calls after it. The second starts at
  \<^verbatim>\<open>constructor\<close>, has the edge from there to \<^verbatim>\<open>b\<close>, and two enter guards and
  an on-commit callback on \<^verbatim>\<open>b\<close>.
\<close>

definition string_key :: "string \<Rightarrow> string" where
  "string_key s = s"

definition a_to_constructor ::
  "(string, string log) call list \<Rightarrow> (string, string log) FiniteStateMachine" where
  "a_to_constructor calls =
     fst (perform_all string_key
       (Call_to \<lparr>fromStates = [''a''], toStates = []\<rparr> [''constructor''] # calls)
       (newFiniteStateMachine ''a'', []))"

definition constructor_to_b :: "(string, string log) FiniteStateMachine" where
  "constructor_to_b =
     fst (perform_all string_key
       [Call_to \<lparr>fromStates = [''constructor''], toStates = []\<rparr> [''b''],
        Call_onEnter ''b'' (log_guard 2 True),
        Call_onEnter ''b'' (log_guard 3 True),
        Call_on ''b'' (log_on 4)]
       (newFiniteStateMachine ''constructor'', []))"

section \<open>Properties\<close>

subsection \<open>Auxiliary facts\<close>

lemmas fsm_eval =
  newFiniteStateMachine_def from_states_def Transitions_to_def addTransitions_def
  addTransition_def validTransition_def on_def onEnter_def onExit_def push_callback_def
  ensure_key_def get_property_def Object_prototype_properties_def registered_def plain_key_def
  canGo_def go_def transitionTo_def reset_def perform_all_def
  log_guard_def log_on_def idle_running_done_def guarded_fsm_def example_calls_def
  string_key_def a_to_constructor_def constructor_to_b_def Let_def

lemma foldl_invariant:
  "P a \<Longrightarrow> (\<And>a x. P a \<Longrightarrow> P (f a x)) \<Longrightarrow> P (foldl f a xs)"
  by (induction xs arbitrary: a) simp_all

lemma foldl_product:
  "foldl (\<lambda>a (x, y). g a x y) a (List.product xs ys) =
     foldl (\<lambda>a1 x. foldl (\<lambda>a2 y. g a2 x y) a1 ys) a xs"
  by (induction xs arbitrary: a) (simp_all add: foldl_map)

lemma length_filter_distinct:
  "distinct xs \<Longrightarrow> x \<in> set xs \<Longrightarrow> length (filter (\<lambda>y. x = y) xs) = 1"
  by (induction xs) (auto simp: filter_empty_conv)

text \<open>A registered edge is a member of the edge list.\<close>

lemma validTransition_iff:
  "validTransition m f t \<longleftrightarrow> \<lparr>tf_from = f, tf_to = t\<rparr> \<in> set (transitionFunctions m)"
proof -
  have "\<And>tf. (tf_from tf = f \<and> tf_to tf = t) = (tf = \<lparr>tf_from = f, tf_to = t\<rparr>)"
    by auto
  then show ?thesis
    by (simp add: validTransition_def list_ex_iff)
qed

text \<open>Reads of a registry under a plain key.\<close>

lemma get_property_ensure_key:
  "plain_key k \<Longrightarrow> get_property (ensure_key k reg) k = Array (registered reg k)"
  by (simp add: get_property_def ensure_key_def registered_def plain_key_def
        split: option.splits)

lemma registered_ensure_key [simp]: "registered (ensure_key k reg) k' = registered reg k'"
  by (simp add: registered_def ensure_key_def get_property_def split: option.splits)

lemma registered_upd:
  "registered (reg(k \<mapsto> cbs)) k' = (if k' = k then cbs else registered reg k')"
  by (simp add: registered_def)

lemma decimal_keys_plain: "plain_key ''0''" "plain_key ''1''" "plain_key ''2''"
  by (simp_all add: plain_key_def Object_prototype_properties_def)

text \<open>Registration appends: the order of a sequence is the order of registration.\<close>

lemma push_callback_plain:
  "plain_key k \<Longrightarrow>
     push_callback k cb (ensure_key k reg) = Inr ((ensure_key k reg)(k \<mapsto> registered reg k @ [cb]))"
  by (simp add: push_callback_def get_property_ensure_key)

lemma on_plain:
  "plain_key (key s) \<Longrightarrow> fst (on key s cb m) = Inr () \<and>
     registered (onCallbacks (snd (on key s cb m))) k =
       (if k = key s then registered (onCallbacks m) k @ [cb] else registered (onCallbacks m) k)"
  by (simp add: on_def Let_def push_callback_plain registered_upd)

lemma onEnter_plain:
  "plain_key (key s) \<Longrightarrow> fst (onEnter key s cb m) = Inr () \<and>
     registered (enterCallbacks (snd (onEnter key s cb m))) k =
       (if k = key s then registered (enterCallbacks m) k @ [cb]
        else registered (enterCallbacks m) k)"
  by (simp add: onEnter_def Let_def push_callback_plain registered_upd)

lemma onExit_plain:
  "plain_key (key s) \<Longrightarrow> fst (onExit key s cb m) = Inr () \<and>
     registered (exitCallbacks (snd (onExit key s cb m))) k =
       (if k = key s then registered (exitCallbacks m) k @ [cb]
        else registered (exitCallbacks m) k)"
  by (simp add: onExit_def Let_def push_callback_plain registered_upd)

text \<open>Registration leaves the edges and the start state alone, and so does a transition.\<close>

lemma on_fields [simp]:
  "transitionFunctions (snd (on key s cb m)) = transitionFunctions m"
  "startState (snd (on key s cb m)) = startState m"
  by (simp_all add: on_def Let_def split: sum.splits)

lemma onEnter_fields [simp]:
  "transitionFunctions (snd (onEnter key s cb m)) = transitionFunctions m"
  "startState (snd (onEnter key s cb m)) = startState m"
  by (simp_all add: onEnter_def Let_def split: sum.splits)

lemma onExit_fields [simp]:
  "transitionFunctions (snd (onExit key s cb m)) = transitionFunctions m"
  "startState (snd (onExit key s cb m)) = startState m"
  by (simp_all add: onExit_def Let_def split: sum.splits)

lemma transitionTo_fields [simp]:
  "transitionFunctions (fst (snd (transitionTo key state (m, w)))) = transitionFunctions m"
  "startState (fst (snd (transitionTo key state (m, w)))) = startState m"
  by (simp_all add: transitionTo_def Let_def split: prod.splits property.splits)

lemma transitionTo_not_Error: "fst (transitionTo key state (m, w)) \<noteq> Inl (Error s)"
  by (simp add: transitionTo_def Let_def split: prod.splits property.splits)

lemma go_fields [simp]:
  "transitionFunctions (fst (snd (go key state (m, w)))) = transitionFunctions m"
  "startState (fst (snd (go key state (m, w)))) = startState m"
  by (simp_all add: go_def)

text \<open>The folds.\<close>

lemma reduce_guards_False [simp]: "reduce_guards gs this False w = (False, w)"
  by (induction gs) simp_all

lemma reduce_guards_until_false: "reduce_guards gs this True w = guards_until_false gs this w"
  by (induction gs arbitrary: w) (simp_all split: prod.splits)

lemma reduce_guards_true_foldl:
  "fst (reduce_guards gs this True w) \<Longrightarrow>
     snd (reduce_guards gs this True w) = foldl (\<lambda>w' g. snd (g this w')) w gs"
proof (induction gs arbitrary: w)
  case Nil
  show ?case by simp
next
  case (Cons g gs)
  show ?case
  proof (cases "fst (g this w)")
    case True
    with Cons show ?thesis
      by (simp add: case_prod_beta)
  next
    case False
    with Cons.prems show ?thesis
      by (simp add: case_prod_beta)
  qed
qed

lemma forEach_call_foldl: "forEach_call fs this w = foldl (\<lambda>w' fcn. fcn this w') w fs"
  by (induction fs arbitrary: w) simp_all

text \<open>The transition between states with plain keys, read off the engine it starts from.\<close>

lemma transitionTo_plain:
  assumes "plain_key (key (currentState m))" and "plain_key (key state)"
  shows "transitionTo key state (m, w) =
     (let s = currentState m;
          m3 = m\<lparr>exitCallbacks := ensure_key (key s) (exitCallbacks m),
                 enterCallbacks := ensure_key (key state) (enterCallbacks m),
                 onCallbacks := ensure_key (key state) (onCallbacks m)\<rparr>;
          r1 = reduce_guards (registered (exitCallbacks m) (key s)) s True w;
          r2 = reduce_guards (registered (enterCallbacks m) (key state)) s True (snd r1)
      in if fst r1 \<and> fst r2
         then (Inr (), (m3\<lparr>currentState := state\<rparr>,
               forEach_call (registered (onCallbacks m) (key state)) state (snd r2)))
         else (Inr (), (m3, snd r2)))"
  using assms
  by (simp add: transitionTo_def Let_def get_property_ensure_key split: prod.splits)

lemma transitionTo_plain_result:
  assumes "plain_key (key (currentState m))" and "plain_key (key state)"
  shows "fst (transitionTo key state (m, w)) = Inr ()"
  using assms by (simp add: transitionTo_plain Let_def)

lemma transitionTo_plain_currentState:
  assumes "plain_key (key (currentState m))" and "plain_key (key state)"
  shows "currentState (fst (snd (transitionTo key state (m, w)))) =
     (let s = currentState m;
          r1 = reduce_guards (registered (exitCallbacks m) (key s)) s True w;
          r2 = reduce_guards (registered (enterCallbacks m) (key state)) s True (snd r1)
      in if fst r1 \<and> fst r2 then state else s)"
  using assms by (simp add: transitionTo_plain Let_def)

lemma transitionTo_plain_world:
  assumes "plain_key (key (currentState m))" and "plain_key (key state)"
  shows "snd (snd (transitionTo key state (m, w))) =
     (let s = currentState m;
          r1 = reduce_guards (registered (exitCallbacks m) (key s)) s True w;
          r2 = reduce_guards (registered (enterCallbacks m) (key state)) s True (snd r1)
      in if fst r1 \<and> fst r2
         then forEach_call (registered (onCallbacks m) (key state)) state (snd r2)
         else snd r2)"
  using assms by (simp add: transitionTo_plain Let_def)

lemma go_eq:
  "go key state (m, w) =
     (if currentState m = state \<or>
         \<lparr>tf_from = currentState m, tf_to = state\<rparr> \<in> set (transitionFunctions m)
      then transitionTo key state (m, w)
      else (Inl (Error (''Error no transition function exists from state ''
                            @ key (currentState m) @ '' to '' @ key state)), (m, w)))"
  by (simp add: go_def canGo_def validTransition_iff)

text \<open>Edge registration.\<close>

lemma transitionFunctions_addTransition:
  "transitionFunctions (addTransition m f t) =
     (if f \<noteq> t \<and> \<lparr>tf_from = f, tf_to = t\<rparr> \<notin> set (transitionFunctions m)
      then transitionFunctions m @ [\<lparr>tf_from = f, tf_to = t\<rparr>]
      else transitionFunctions m)"
  by (simp add: addTransition_def validTransition_iff)

lemma startState_addTransition [simp]: "startState (addTransition m f t) = startState m"
  by (simp add: addTransition_def)

lemma edges_ok_addTransition:
  "edges_ok (transitionFunctions m) \<Longrightarrow> edges_ok (transitionFunctions (addTransition m f t))"
  by (auto simp: transitionFunctions_addTransition edges_ok_def)

lemma edges_ok_addTransitions:
  assumes "edges_ok (transitionFunctions m)"
  shows "edges_ok (transitionFunctions (addTransitions fcn m))"
  unfolding addTransitions_def
  by (rule foldl_invariant [where P = "\<lambda>m. edges_ok (transitionFunctions m)"], rule assms,
      rule foldl_invariant [where P = "\<lambda>m. edges_ok (transitionFunctions m)"], assumption,
      rule edges_ok_addTransition)

lemma addTransitions_startState [simp]: "startState (addTransitions fcn m) = startState m"
  unfolding addTransitions_def
  by (rule foldl_invariant [where P = "\<lambda>m'. startState m' = startState m"], simp,
      rule foldl_invariant [where P = "\<lambda>m'. startState m' = startState m"], assumption, simp)

lemma set_addTransitions:
  "set (transitionFunctions (addTransitions fcn m)) =
     set (transitionFunctions m) \<union>
     {\<lparr>tf_from = f, tf_to = t\<rparr> | f t.
        f \<in> set (fromStates fcn) \<and> t \<in> set (toStates fcn) \<and> f \<noteq> t}"
proof -
  have inner: "set (transitionFunctions (foldl (\<lambda>m2 to. addTransition m2 f to) m1 ts)) =
      set (transitionFunctions m1) \<union> {\<lparr>tf_from = f, tf_to = t\<rparr> | t. t \<in> set ts \<and> f \<noteq> t}"
    for f ts and m1 :: "('a, 'b) FiniteStateMachine"
    by (induction ts arbitrary: m1) (auto simp: transitionFunctions_addTransition)
  have outer: "set (transitionFunctions
        (foldl (\<lambda>m1 from. foldl (\<lambda>m2 to. addTransition m2 from to) m1 ts) m fs)) =
      set (transitionFunctions m) \<union>
      {\<lparr>tf_from = f, tf_to = t\<rparr> | f t. f \<in> set fs \<and> t \<in> set ts \<and> f \<noteq> t}"
    for fs ts and m :: "('a, 'b) FiniteStateMachine"
    by (induction fs arbitrary: m) (auto simp: inner)
  show ?thesis
    unfolding addTransitions_def by (rule outer)
qed

lemma addTransition_noop:
  "f = t \<or> \<lparr>tf_from = f, tf_to = t\<rparr> \<in> set (transitionFunctions m) \<Longrightarrow> addTransition m f t = m"
  by (auto simp: addTransition_def validTransition_iff)

lemma addTransitions_noop:
  assumes "\<forall>f\<in>set (fromStates fcn). \<forall>t\<in>set (toStates fcn).
             f = t \<or> \<lparr>tf_from = f, tf_to = t\<rparr> \<in> set (transitionFunctions m)"
  shows "addTransitions fcn m = m"
proof -
  have inner: "\<forall>t\<in>set ts. f = t \<or> \<lparr>tf_from = f, tf_to = t\<rparr> \<in> set (transitionFunctions m)
      \<Longrightarrow> foldl (\<lambda>m2 to. addTransition m2 f to) m ts = m" for f ts
    by (induction ts) (simp_all add: addTransition_noop)
  have outer: "\<forall>f\<in>set fs. \<forall>t\<in>set ts.
        f = t \<or> \<lparr>tf_from = f, tf_to = t\<rparr> \<in> set (transitionFunctions m)
      \<Longrightarrow> foldl (\<lambda>m1 from. foldl (\<lambda>m2 to. addTransition m2 from to) m1 ts) m fs = m" for fs ts
    by (induction fs) (simp_all add: inner)
  show ?thesis
    unfolding addTransitions_def using assms by (rule outer)
qed

lemma addTransitions_idem: "addTransitions fcn (addTransitions fcn m) = addTransitions fcn m"
  by (rule addTransitions_noop) (auto simp: set_addTransitions)

text \<open>What every call preserves.\<close>

lemma perform_startState: "startState (fst (perform key c call)) = startState (fst c)"
  by (cases c; cases call) (simp_all add: from_states_def Transitions_to_def reset_def)

lemma perform_edges_ok:
  "edges_ok (transitionFunctions (fst c)) \<Longrightarrow>
     edges_ok (transitionFunctions (fst (perform key c call)))"
  by (cases c; cases call)
     (simp_all add: from_states_def Transitions_to_def reset_def edges_ok_addTransitions)

lemma perform_all_startState: "startState (fst (perform_all key calls c)) = startState (fst c)"
  unfolding perform_all_def
  by (rule foldl_invariant [where P = "\<lambda>c'. startState (fst c') = startState (fst c)"])
     (simp_all add: perform_startState)

lemma perform_all_edges_ok:
  "edges_ok (transitionFunctions (fst c)) \<Longrightarrow>
     edges_ok (transitionFunctions (fst (perform_all key calls c)))"
  unfolding perform_all_def
  by (rule foldl_invariant [where P = "\<lambda>c'. edges_ok (transitionFunctions (fst c'))"])
     (simp_all add: perform_edges_ok)

lemma new_edges_ok: "edges_ok (transitionFunctions (newFiniteStateMachine s0))"
  by (simp add: newFiniteStateMachine_def edges_ok_def)

text \<open>The concrete machines.\<close>

lemma idle_running_done_fields:
  "currentState idle_running_done = Idle"
  "transitionFunctions idle_running_done =
     [\<lparr>tf_from = Idle, tf_to = Running\<rparr>, \<lparr>tf_from = Running, tf_to = Done\<rparr>]"
  by (simp_all add: fsm_eval)

lemma guarded_fsm_fields:
  "currentState (guarded_fsm b1 b3) = Idle"
  "transitionFunctions (guarded_fsm b1 b3) =
     [\<lparr>tf_from = Idle, tf_to = Running\<rparr>, \<lparr>tf_from = Running, tf_to = Done\<rparr>]"
  "registered (exitCallbacks (guarded_fsm b1 b3)) ''0'' = [log_guard 1 b1, log_guard 2 True]"
  "registered (enterCallbacks (guarded_fsm b1 b3)) ''0'' = []"
  "registered (enterCallbacks (guarded_fsm b1 b3)) ''1'' = [log_guard 3 b3, log_guard 4 True]"
  "registered (onCallbacks (guarded_fsm b1 b3)) ''0'' = []"
  "registered (onCallbacks (guarded_fsm b1 b3)) ''1'' = [log_on 5, log_on 6]"
  by (simp_all add: fsm_eval del: log_guard_def log_on_def)

subsection \<open>The validity query\<close>

text \<open>
  C5. For every engine and every state \<open>S\<close>, \<^verbatim>\<open>canGo(S)\<close> is true exactly when \<open>S\<close> is the
  current state or the edge from the current state to \<open>S\<close> is registered; on a fresh
  engine, which has no edge at all, \<^verbatim>\<open>canGo\<close> of the current state is true. The source
  of \<^verbatim>\<open>canGo\<close> and of \<^verbatim>\<open>_validTransition\<close> assigns nothing, so both are functions from
  the engine to a boolean and return no engine.
\<close>

theorem canGo_iff_self_or_edge:
  "(canGo m S \<longleftrightarrow>
      S = currentState m \<or>
      \<lparr>tf_from = currentState m, tf_to = S\<rparr> \<in> set (transitionFunctions m)) \<and>
   canGo (newFiniteStateMachine S) S \<and>
   transitionFunctions (newFiniteStateMachine S) = []"
  by (auto simp: canGo_def validTransition_iff newFiniteStateMachine_def)

text \<open>
  The scenario of section 8: from Idle, Done is not reachable in one step; after going to
  Running and then to Done, Idle is not reachable and staying at Done is.
\<close>

theorem canGo_iff_self_or_edge_witness:
  "\<not> canGo idle_running_done Done \<and>
   canGo idle_running_done Running \<and>
   canGo idle_running_done Idle \<and>
   currentState (fst (perform_all phase_key [Call_go Running, Call_go Done]
                        (idle_running_done, []))) = Done \<and>
   \<not> canGo (fst (perform_all phase_key [Call_go Running, Call_go Done]
                   (idle_running_done, []))) Idle \<and>
   canGo (fst (perform_all phase_key [Call_go Running, Call_go Done]
                 (idle_running_done, []))) Done"
proof -
  let ?m = "fst (perform_all phase_key [Call_go Running, Call_go Done] (idle_running_done, []))"
  have cur: "currentState ?m = Done"
    by (simp add: fsm_eval)
  have edges: "transitionFunctions ?m =
      [\<lparr>tf_from = Idle, tf_to = Running\<rparr>, \<lparr>tf_from = Running, tf_to = Done\<rparr>]"
    by (simp add: fsm_eval)
  show ?thesis
    using canGo_iff_self_or_edge [of idle_running_done Done]
      canGo_iff_self_or_edge [of idle_running_done Running]
      canGo_iff_self_or_edge [of idle_running_done Idle]
      canGo_iff_self_or_edge [of ?m Idle]
      canGo_iff_self_or_edge [of ?m Done]
    by (auto simp: idle_running_done_fields cur edges)
qed

subsection \<open>Edge registration\<close>

text \<open>
  C6. Whatever calls were made on an engine since its construction, its edge list holds no
  self-loop and no edge twice. Registering with the same builder a second time changes
  nothing, and after \<^verbatim>\<open>addTransitions\<close> was called twice with the pair \<open>(A, B)\<close>,
  \<open>A \<noteq> B\<close>, the list holds the edge from \<open>A\<close> to \<open>B\<close> exactly once.
\<close>

theorem edges_never_loop_or_duplicate:
  "(let m = fst (perform_all key calls (newFiniteStateMachine s0, w));
        ab = \<lparr>fromStates = [A], toStates = [B]\<rparr>
    in distinct (transitionFunctions m) \<and>
       (\<forall>tf\<in>set (transitionFunctions m). tf_from tf \<noteq> tf_to tf) \<and>
       addTransitions fcn (addTransitions fcn m) = addTransitions fcn m \<and>
       (A \<noteq> B \<longrightarrow>
          length (filter (\<lambda>tf. tf_from tf = A \<and> tf_to tf = B)
            (transitionFunctions (addTransitions ab (addTransitions ab m)))) = 1))"
proof -
  define m where "m = fst (perform_all key calls (newFiniteStateMachine s0, w))"
  let ?ab = "\<lparr>fromStates = [A], toStates = [B]\<rparr>"
  have ok: "edges_ok (transitionFunctions m)"
    unfolding m_def by (rule perform_all_edges_ok) (simp add: new_edges_ok)
  have ok2: "edges_ok (transitionFunctions (addTransitions ?ab (addTransitions ?ab m)))"
    by (intro edges_ok_addTransitions ok)
  have mem: "A \<noteq> B \<Longrightarrow> \<lparr>tf_from = A, tf_to = B\<rparr>
      \<in> set (transitionFunctions (addTransitions ?ab (addTransitions ?ab m)))"
    by (simp add: set_addTransitions)
  have eq: "(\<lambda>tf. tf_from tf = A \<and> tf_to tf = B) = (\<lambda>tf. \<lparr>tf_from = A, tf_to = B\<rparr> = tf)"
    by auto
  have cnt: "A \<noteq> B \<Longrightarrow> length (filter (\<lambda>tf. tf_from tf = A \<and> tf_to tf = B)
              (transitionFunctions (addTransitions ?ab (addTransitions ?ab m)))) = 1"
    unfolding eq using ok2 mem
    by (simp add: edges_ok_def length_filter_distinct)
  from ok cnt show ?thesis
    unfolding Let_def m_def [symmetric]
    by (simp add: edges_ok_def addTransitions_idem)
qed

text \<open>
  In the example session the builder is given Running twice and the source states
  themselves as targets: two edges are stored. Registering Running \<open>\<rightarrow>\<close> Done twice adds
  one edge.
\<close>

theorem edges_never_loop_or_duplicate_witness:
  "transitionFunctions (fst (perform_all phase_key example_calls (newFiniteStateMachine Idle, []))) =
     [\<lparr>tf_from = Idle, tf_to = Running\<rparr>, \<lparr>tf_from = Running, tf_to = Idle\<rparr>] \<and>
   distinct (transitionFunctions
     (fst (perform_all phase_key example_calls (newFiniteStateMachine Idle, [])))) \<and>
   transitionFunctions
     (addTransitions \<lparr>fromStates = [Running], toStates = [Done]\<rparr>
        (addTransitions \<lparr>fromStates = [Running], toStates = [Done]\<rparr>
           (fst (perform_all phase_key example_calls (newFiniteStateMachine Idle, []))))) =
     [\<lparr>tf_from = Idle, tf_to = Running\<rparr>, \<lparr>tf_from = Running, tf_to = Idle\<rparr>,
      \<lparr>tf_from = Running, tf_to = Done\<rparr>] \<and>
   length (filter (\<lambda>tf. tf_from tf = Running \<and> tf_to tf = Done)
     (transitionFunctions
        (addTransitions \<lparr>fromStates = [Running], toStates = [Done]\<rparr>
           (addTransitions \<lparr>fromStates = [Running], toStates = [Done]\<rparr>
              (fst (perform_all phase_key example_calls (newFiniteStateMachine Idle, []))))))) = 1"
proof -
  let ?m = "fst (perform_all phase_key example_calls (newFiniteStateMachine Idle, []))"
  have edges: "transitionFunctions ?m =
      [\<lparr>tf_from = Idle, tf_to = Running\<rparr>, \<lparr>tf_from = Running, tf_to = Idle\<rparr>]"
    by (simp add: fsm_eval)
  have twice: "transitionFunctions
     (addTransitions \<lparr>fromStates = [Running], toStates = [Done]\<rparr>
        (addTransitions \<lparr>fromStates = [Running], toStates = [Done]\<rparr> ?m)) =
     [\<lparr>tf_from = Idle, tf_to = Running\<rparr>, \<lparr>tf_from = Running, tf_to = Idle\<rparr>,
      \<lparr>tf_from = Running, tf_to = Done\<rparr>]"
    by (simp add: addTransitions_def transitionFunctions_addTransition edges)
  show ?thesis
    using edges_never_loop_or_duplicate
      [where key = phase_key and calls = example_calls and ?s0.0 = Idle and w = "[]"
         and fcn = "\<lparr>fromStates = [Running], toStates = [Done]\<rparr>" and A = Running and B = Done]
    unfolding Let_def edges twice
    by simp
qed

text \<open>
  C9. \<^verbatim>\<open>from\<close> returns the engine as it was. The \<^verbatim>\<open>to\<close> that follows hands the pairs
  of the cross product of the source and the target states to the registration step
  \<open>addTransition\<close>, one by one, source-major; the edges of the engine afterwards are the
  old ones and the pairs of the cross product that are not self-loops. With no source
  state or no target state the engine is unchanged. \<^verbatim>\<open>to\<close> has no error result: its
  source has no \<^verbatim>\<open>throw\<close> and reads no registry.
\<close>

theorem builder_registers_cross_product:
  "snd (from_states fs m) = m \<and>
   Transitions_to (fst (from_states fs m)) ts m =
     foldl (\<lambda>m1 (f, t). addTransition m1 f t) m (List.product fs ts) \<and>
   set (transitionFunctions (Transitions_to (fst (from_states fs m)) ts m)) =
     set (transitionFunctions m) \<union>
     {\<lparr>tf_from = f, tf_to = t\<rparr> | f t. f \<in> set fs \<and> t \<in> set ts \<and> f \<noteq> t} \<and>
   Transitions_to (fst (from_states [] m)) ts m = m \<and>
   Transitions_to (fst (from_states fs m)) [] m = m"
proof -
  have to_eq: "Transitions_to (fst (from_states fs m)) ts m =
      addTransitions \<lparr>fromStates = fs, toStates = ts\<rparr> m" for fs ts
    by (simp add: Transitions_to_def from_states_def)
  have "snd (from_states fs m) = m"
    by (simp add: from_states_def)
  moreover have "Transitions_to (fst (from_states fs m)) ts m =
     foldl (\<lambda>m1 (f, t). addTransition m1 f t) m (List.product fs ts)"
    by (simp add: to_eq addTransitions_def foldl_product)
  moreover have "set (transitionFunctions (Transitions_to (fst (from_states fs m)) ts m)) =
     set (transitionFunctions m) \<union>
     {\<lparr>tf_from = f, tf_to = t\<rparr> | f t. f \<in> set fs \<and> t \<in> set ts \<and> f \<noteq> t}"
    by (simp add: to_eq set_addTransitions)
  moreover have "Transitions_to (fst (from_states [] m)) ts m = m"
    by (simp add: to_eq addTransitions_noop)
  moreover have "Transitions_to (fst (from_states fs m)) [] m = m"
    by (simp add: to_eq addTransitions_noop)
  ultimately show ?thesis
    by blast
qed

theorem builder_registers_cross_product_witness:
  "List.product [Idle, Running] [Running, Done, Idle] =
     [(Idle, Running), (Idle, Done), (Idle, Idle),
      (Running, Running), (Running, Done), (Running, Idle)] \<and>
   transitionFunctions
     (Transitions_to (fst (from_states [Idle, Running] idle_running_done)) [Running, Done, Idle]
        idle_running_done) =
     [\<lparr>tf_from = Idle, tf_to = Running\<rparr>, \<lparr>tf_from = Running, tf_to = Done\<rparr>,
      \<lparr>tf_from = Idle, tf_to = Done\<rparr>, \<lparr>tf_from = Running, tf_to = Idle\<rparr>] \<and>
   Transitions_to (fst (from_states [] idle_running_done)) [Running] idle_running_done =
     idle_running_done \<and>
   Transitions_to (fst (from_states [Idle] idle_running_done)) [] idle_running_done =
     idle_running_done"
proof -
  have "transitionFunctions
     (foldl (\<lambda>m1 (f, t). addTransition m1 f t) idle_running_done
        (List.product [Idle, Running] [Running, Done, Idle])) =
     [\<lparr>tf_from = Idle, tf_to = Running\<rparr>, \<lparr>tf_from = Running, tf_to = Done\<rparr>,
      \<lparr>tf_from = Idle, tf_to = Done\<rparr>, \<lparr>tf_from = Running, tf_to = Idle\<rparr>]"
    by (simp add: transitionFunctions_addTransition idle_running_done_fields)
  then show ?thesis
    using builder_registers_cross_product
        [where fs = "[Idle, Running]" and m = idle_running_done and ts = "[Running, Done, Idle]"]
      builder_registers_cross_product
        [where fs = "[Idle]" and m = idle_running_done and ts = "[Running]"]
    by simp
qed

subsection \<open>The guarded transition\<close>

text \<open>
  C1, as the code has it. Let the edge from \<open>A\<close> to \<open>B\<close> be registered, \<open>A\<close> be the
  current state, and the keys of \<open>A\<close> and \<open>B\<close> be plain. Let every exit guard registered
  under the key of \<open>A\<close> and every enter guard registered under the key of \<open>B\<close> return true
  when this \<^verbatim>\<open>go\<close> calls it, which is to say that both folds yield true (none at all
  is the case of the empty sequences). Then \<^verbatim>\<open>go(B)\<close> raises no error and leaves \<open>B\<close>
  as the current state; the guards have run once each, the exit guards before the enter
  guards; after them the on-commit callbacks registered under the key of \<open>B\<close> have run
  once each, in the order of their registration, and each saw \<open>B\<close> as the current state.
  The hypothesis \<open>A \<noteq> B\<close> is not needed.
\<close>

theorem go_commits_and_notifies:
  assumes "\<lparr>tf_from = A, tf_to = B\<rparr> \<in> set (transitionFunctions m)"
    and "currentState m = A"
    and "plain_key (key A)" and "plain_key (key B)"
    and "fst (reduce_guards (registered (exitCallbacks m) (key A)) A True w)"
    and "fst (reduce_guards (registered (enterCallbacks m) (key B)) A True
                (snd (reduce_guards (registered (exitCallbacks m) (key A)) A True w)))"
  shows "fst (go key B (m, w)) = Inr () \<and>
         currentState (fst (snd (go key B (m, w)))) = B \<and>
         snd (snd (go key B (m, w))) =
           foldl (\<lambda>w' fcn. fcn B w')
             (foldl (\<lambda>w' g. snd (g A w')) w
                (registered (exitCallbacks m) (key A) @ registered (enterCallbacks m) (key B)))
             (registered (onCallbacks m) (key B))"
  using assms
  by (simp add: go_eq transitionTo_plain_result transitionTo_plain_currentState
        transitionTo_plain_world reduce_guards_true_foldl forEach_call_foldl)

theorem go_commits_and_notifies_witness:
  "\<lparr>tf_from = Idle, tf_to = Running\<rparr> \<in> set (transitionFunctions (guarded_fsm True True)) \<and>
   currentState (guarded_fsm True True) = Idle \<and>
   plain_key (phase_key Idle) \<and> plain_key (phase_key Running) \<and>
   fst (go phase_key Running (guarded_fsm True True, [])) = Inr () \<and>
   currentState (fst (snd (go phase_key Running (guarded_fsm True True, [])))) = Running \<and>
   snd (snd (go phase_key Running (guarded_fsm True True, []))) =
     [(1, Idle), (2, Idle), (3, Idle), (4, Idle), (5, Running), (6, Running)]"
proof -
  have edge: "\<lparr>tf_from = Idle, tf_to = Running\<rparr> \<in> set (transitionFunctions (guarded_fsm True True))"
    by (simp add: guarded_fsm_fields)
  have cur: "currentState (guarded_fsm True True) = Idle"
    by (simp add: guarded_fsm_fields)
  have pA: "plain_key (phase_key Idle)" and pB: "plain_key (phase_key Running)"
    by (simp_all add: decimal_keys_plain)
  have exits: "fst (reduce_guards (registered (exitCallbacks (guarded_fsm True True))
      (phase_key Idle)) Idle True [])"
    by (simp add: guarded_fsm_fields log_guard_def)
  have enters: "fst (reduce_guards (registered (enterCallbacks (guarded_fsm True True))
      (phase_key Running)) Idle True
      (snd (reduce_guards (registered (exitCallbacks (guarded_fsm True True))
         (phase_key Idle)) Idle True [])))"
    by (simp add: guarded_fsm_fields log_guard_def)
  show ?thesis
    using go_commits_and_notifies [OF edge cur pA pB exits enters] edge cur pA pB
    by (simp add: guarded_fsm_fields log_guard_def log_on_def)
qed

text \<open>
  C1 as the specification states it, for every pair of states, fails. With the edge from
  \<^verbatim>\<open>a\<close> to \<^verbatim>\<open>constructor\<close> registered and no guard at all, \<^verbatim>\<open>go\<close> of
  \<^verbatim>\<open>constructor\<close> finds the inherited function under the key of the target, where it
  expects the array of enter guards, and throws; the current state is still \<^verbatim>\<open>a\<close>.
\<close>

theorem commit_at_inherited_key_counterexample:
  "\<lparr>tf_from = ''a'', tf_to = ''constructor''\<rparr> \<in> set (transitionFunctions (a_to_constructor [])) \<and>
   ''a'' \<noteq> ''constructor'' \<and>
   currentState (a_to_constructor []) = ''a'' \<and>
   registered (exitCallbacks (a_to_constructor [])) (string_key ''a'') = [] \<and>
   registered (enterCallbacks (a_to_constructor [])) (string_key ''constructor'') = [] \<and>
   fst (go string_key ''constructor'' (a_to_constructor [], [])) = Inl TypeError \<and>
   currentState (fst (snd (go string_key ''constructor'' (a_to_constructor [], [])))) = ''a''"
  by (simp add: fsm_eval)

text \<open>
  C2, as the code has it. \<^verbatim>\<open>go(X)\<close> raises the error for an undeclared transition
  exactly when \<open>X\<close> is not the current state and the edge from the current state to \<open>X\<close>
  is not registered. The message then names the keys of the current state and of \<open>X\<close>; the
  engine, with its current state, and the application state are as before the call, so no
  callback has run. When the keys of the current state and of \<open>X\<close> are plain, \<^verbatim>\<open>go\<close>
  raises no other error.
\<close>

theorem go_raises_iff_no_edge:
  "((\<exists>s. fst (go key X (m, w)) = Inl (Error s)) \<longleftrightarrow>
      X \<noteq> currentState m \<and>
      \<lparr>tf_from = currentState m, tf_to = X\<rparr> \<notin> set (transitionFunctions m)) \<and>
   ((\<exists>s. fst (go key X (m, w)) = Inl (Error s)) \<longrightarrow>
      go key X (m, w) =
        (Inl (Error (''Error no transition function exists from state ''
                       @ key (currentState m) @ '' to '' @ key X)), (m, w))) \<and>
   (plain_key (key (currentState m)) \<and> plain_key (key X) \<longrightarrow>
      (isl (fst (go key X (m, w))) \<longleftrightarrow>
         X \<noteq> currentState m \<and>
         \<lparr>tf_from = currentState m, tf_to = X\<rparr> \<notin> set (transitionFunctions m)))"
  by (auto simp: go_eq transitionTo_not_Error transitionTo_plain_result)

theorem go_raises_iff_no_edge_witness:
  "go phase_key Done (guarded_fsm True True, []) =
     (Inl (Error ''Error no transition function exists from state 0 to 2''),
      (guarded_fsm True True, [])) \<and>
   \<not> isl (fst (go phase_key Running (guarded_fsm True True, []))) \<and>
   \<not> isl (fst (go phase_key Idle (guarded_fsm True True, [])))"
  using go_raises_iff_no_edge [of phase_key Done "guarded_fsm True True" "[]"]
    go_raises_iff_no_edge [of phase_key Running "guarded_fsm True True" "[]"]
    go_raises_iff_no_edge [of phase_key Idle "guarded_fsm True True" "[]"]
  by (simp add: guarded_fsm_fields decimal_keys_plain)

text \<open>
  C2 as the specification states it, that \<^verbatim>\<open>go\<close> raises an error only without an edge
  and then calls no callback, fails. With the edge from \<^verbatim>\<open>a\<close> to \<^verbatim>\<open>constructor\<close>
  registered and an exit guard on \<^verbatim>\<open>a\<close>, \<^verbatim>\<open>go\<close> of \<^verbatim>\<open>constructor\<close> calls the
  exit guard and then throws.
\<close>

theorem go_raises_with_edge_counterexample:
  "\<lparr>tf_from = ''a'', tf_to = ''constructor''\<rparr>
     \<in> set (transitionFunctions (a_to_constructor [Call_onExit ''a'' (log_guard 1 True)])) \<and>
   currentState (a_to_constructor [Call_onExit ''a'' (log_guard 1 True)]) = ''a'' \<and>
   isl (fst (go string_key ''constructor''
               (a_to_constructor [Call_onExit ''a'' (log_guard 1 True)], []))) \<and>
   fst (go string_key ''constructor''
          (a_to_constructor [Call_onExit ''a'' (log_guard 1 True)], [])) = Inl TypeError \<and>
   snd (snd (go string_key ''constructor''
               (a_to_constructor [Call_onExit ''a'' (log_guard 1 True)], []))) = [(1, ''a'')]"
  by (simp add: fsm_eval)

text \<open>
  C3, as the code has it. Let the edge from \<open>A\<close> to \<open>B\<close> be registered, \<open>A\<close> be the
  current state, and the keys of \<open>A\<close> and \<open>B\<close> be plain. If the fold of the exit guards of
  \<open>A\<close> or the fold of the enter guards of \<open>B\<close> yields false, \<^verbatim>\<open>go(B)\<close> raises no error,
  the current state is still \<open>A\<close>, and the application state is the one the two guard
  folds left: no on-commit callback has run.
\<close>

theorem guard_rejection_is_silent:
  assumes "\<lparr>tf_from = A, tf_to = B\<rparr> \<in> set (transitionFunctions m)"
    and "currentState m = A"
    and "plain_key (key A)" and "plain_key (key B)"
    and "\<not> fst (reduce_guards (registered (exitCallbacks m) (key A)) A True w) \<or>
         \<not> fst (reduce_guards (registered (enterCallbacks m) (key B)) A True
                  (snd (reduce_guards (registered (exitCallbacks m) (key A)) A True w)))"
  shows "fst (go key B (m, w)) = Inr () \<and>
         currentState (fst (snd (go key B (m, w)))) = A \<and>
         snd (snd (go key B (m, w))) =
           snd (reduce_guards (registered (enterCallbacks m) (key B)) A True
                  (snd (reduce_guards (registered (exitCallbacks m) (key A)) A True w)))"
  using assms
  by (auto simp: go_eq transitionTo_plain_result transitionTo_plain_currentState
        transitionTo_plain_world)

theorem guard_rejection_is_silent_witness:
  "\<lparr>tf_from = Idle, tf_to = Running\<rparr> \<in> set (transitionFunctions (guarded_fsm True False)) \<and>
   currentState (guarded_fsm True False) = Idle \<and>
   plain_key (phase_key Idle) \<and> plain_key (phase_key Running) \<and>
   fst (reduce_guards (registered (exitCallbacks (guarded_fsm True False)) (phase_key Idle))
          Idle True []) \<and>
   \<not> fst (reduce_guards (registered (enterCallbacks (guarded_fsm True False)) (phase_key Running))
            Idle True [(1, Idle), (2, Idle)]) \<and>
   fst (go phase_key Running (guarded_fsm True False, [])) = Inr () \<and>
   currentState (fst (snd (go phase_key Running (guarded_fsm True False, [])))) = Idle \<and>
   snd (snd (go phase_key Running (guarded_fsm True False, []))) =
     [(1, Idle), (2, Idle), (3, Idle)]"
proof -
  have edge: "\<lparr>tf_from = Idle, tf_to = Running\<rparr> \<in> set (transitionFunctions (guarded_fsm True False))"
    by (simp add: guarded_fsm_fields)
  have cur: "currentState (guarded_fsm True False) = Idle"
    by (simp add: guarded_fsm_fields)
  have pA: "plain_key (phase_key Idle)" and pB: "plain_key (phase_key Running)"
    by (simp_all add: decimal_keys_plain)
  have rej: "\<not> fst (reduce_guards (registered (exitCallbacks (guarded_fsm True False)) (phase_key Idle))
          Idle True []) \<or>
      \<not> fst (reduce_guards (registered (enterCallbacks (guarded_fsm True False)) (phase_key Running))
            Idle True (snd (reduce_guards
              (registered (exitCallbacks (guarded_fsm True False)) (phase_key Idle)) Idle True [])))"
    by (simp add: guarded_fsm_fields log_guard_def)
  show ?thesis
    using guard_rejection_is_silent [OF edge cur pA pB rej] edge cur pA pB
    by (simp add: guarded_fsm_fields log_guard_def)
qed

text \<open>
  C3 as the specification states it, for every pair of states, fails. With the edge from
  \<^verbatim>\<open>a\<close> to \<^verbatim>\<open>constructor\<close> registered and an exit guard on \<^verbatim>\<open>a\<close> that returns
  false, the exit fold yields false and \<^verbatim>\<open>go\<close> of \<^verbatim>\<open>constructor\<close> does not return:
  it throws.
\<close>

theorem guard_rejection_raises_counterexample:
  "\<lparr>tf_from = ''a'', tf_to = ''constructor''\<rparr>
     \<in> set (transitionFunctions (a_to_constructor [Call_onExit ''a'' (log_guard 1 False)])) \<and>
   currentState (a_to_constructor [Call_onExit ''a'' (log_guard 1 False)]) = ''a'' \<and>
   reduce_guards
     (registered (exitCallbacks (a_to_constructor [Call_onExit ''a'' (log_guard 1 False)]))
        (string_key ''a'')) ''a'' True [] = (False, [(1, ''a'')]) \<and>
   fst (go string_key ''constructor''
          (a_to_constructor [Call_onExit ''a'' (log_guard 1 False)], [])) = Inl TypeError \<and>
   fst (go string_key ''constructor''
          (a_to_constructor [Call_onExit ''a'' (log_guard 1 False)], [])) \<noteq> Inr ()"
  by (simp add: fsm_eval)

text \<open>
  C4, as the code has it. In a \<^verbatim>\<open>go\<close> that passes validation, between states with
  plain keys, the exit guards of the current state are folded with AND in registration
  order, starting from true, and so are the enter guards of the target state after them.
  Within a fold the callbacks are called in order up to and including the first one that
  returns false; the callbacks registered after that one are not called.
\<close>

theorem guard_folds_stop_at_first_false:
  fixes m :: "('s, 'w) FiniteStateMachine"
  assumes "canGo m state"
    and "plain_key (key (currentState m))" and "plain_key (key state)"
  shows "(\<forall>(gs :: ('s, 'w) guard_callback list) this w'.
            reduce_guards gs this True w' = guards_until_false gs this w') \<and>
         snd (snd (go key state (m, w))) =
           (let s = currentState m;
                r1 = guards_until_false (registered (exitCallbacks m) (key s)) s w;
                r2 = guards_until_false (registered (enterCallbacks m) (key state)) s (snd r1)
            in if fst r1 \<and> fst r2
               then forEach_call (registered (onCallbacks m) (key state)) state (snd r2)
               else snd r2)"
  using assms
  by (simp add: go_def transitionTo_plain_world reduce_guards_until_false Let_def)

theorem guard_folds_stop_at_first_false_witness:
  "canGo (guarded_fsm False False) Running \<and>
   plain_key (phase_key (currentState (guarded_fsm False False))) \<and>
   plain_key (phase_key Running) \<and>
   registered (exitCallbacks (guarded_fsm False False)) (phase_key Idle) =
     [log_guard 1 False, log_guard 2 True] \<and>
   registered (enterCallbacks (guarded_fsm False False)) (phase_key Running) =
     [log_guard 3 False, log_guard 4 True] \<and>
   snd (snd (go phase_key Running (guarded_fsm False False, []))) = [(1, Idle), (3, Idle)]"
proof -
  have can: "canGo (guarded_fsm False False) Running"
    by (simp add: canGo_def validTransition_iff guarded_fsm_fields)
  have pA: "plain_key (phase_key (currentState (guarded_fsm False False)))"
    and pB: "plain_key (phase_key Running)"
    by (simp_all add: guarded_fsm_fields decimal_keys_plain)
  show ?thesis
    using guard_folds_stop_at_first_false [OF can pA pB, of "[]"] can pA pB
    by (simp add: guarded_fsm_fields log_guard_def)
qed

text \<open>
  C4 as the specification states it, that every guard executes even after an earlier one
  returned false, fails. Exit guard 1 of Idle returns false and exit guard 2 is registered
  after it: the fold without short-circuit would call both, and \<^verbatim>\<open>go\<close> never calls
  guard 2. And from the state \<^verbatim>\<open>constructor\<close>, \<^verbatim>\<open>go\<close> of \<^verbatim>\<open>b\<close> throws before it
  calls any of the enter guards of \<^verbatim>\<open>b\<close>.
\<close>

theorem all_guards_execute_counterexample:
  "canGo (guarded_fsm False True) Running \<and>
   registered (exitCallbacks (guarded_fsm False True)) (phase_key Idle) =
     [log_guard 1 False, log_guard 2 True] \<and>
   snd (guards_without_short_circuit
          (registered (exitCallbacks (guarded_fsm False True)) (phase_key Idle)) Idle True []) =
     [(1, Idle), (2, Idle)] \<and>
   snd (snd (go phase_key Running (guarded_fsm False True, []))) =
     [(1, Idle), (3, Idle), (4, Idle)] \<and>
   (2, Idle) \<notin> set (snd (snd (go phase_key Running (guarded_fsm False True, [])))) \<and>
   canGo constructor_to_b ''b'' \<and>
   registered (enterCallbacks constructor_to_b) (string_key ''b'') =
     [log_guard 2 True, log_guard 3 True] \<and>
   fst (go string_key ''b'' (constructor_to_b, [])) = Inl TypeError \<and>
   snd (snd (go string_key ''b'' (constructor_to_b, []))) = []"
proof -
  have "snd (snd (go phase_key Running (guarded_fsm False True, []))) =
     [(1, Idle), (3, Idle), (4, Idle)]"
    by (simp add: fsm_eval)
  moreover have "canGo constructor_to_b ''b''"
    by (simp add: fsm_eval)
  moreover have "registered (enterCallbacks constructor_to_b) (string_key ''b'') =
     [log_guard 2 True, log_guard 3 True]"
    by (simp add: fsm_eval del: log_guard_def)
  moreover have "fst (go string_key ''b'' (constructor_to_b, [])) = Inl TypeError"
    by (simp add: fsm_eval)
  moreover have "snd (snd (go string_key ''b'' (constructor_to_b, []))) = []"
    by (simp add: fsm_eval)
  ultimately show ?thesis
    by (simp add: canGo_def validTransition_iff guarded_fsm_fields log_guard_def)
qed

text \<open>
  C10, as the code has it. In a \<^verbatim>\<open>go\<close> that passes validation, between states with
  plain keys, the fold of the enter guards of the target state runs on the application
  state the exit fold left, whatever the exit fold yielded, and its effect is part of the
  outcome in either case. The current state becomes the target exactly when both folds
  yielded true, and only then do the on-commit callbacks run.
\<close>

theorem enter_guards_run_after_failed_exit:
  assumes "canGo m state"
    and "plain_key (key (currentState m))" and "plain_key (key state)"
  shows "(let s = currentState m;
              r1 = reduce_guards (registered (exitCallbacks m) (key s)) s True w;
              r2 = reduce_guards (registered (enterCallbacks m) (key state)) s True (snd r1)
          in currentState (fst (snd (go key state (m, w)))) =
               (if fst r1 \<and> fst r2 then state else s) \<and>
             snd (snd (go key state (m, w))) =
               (if fst r1 \<and> fst r2
                then forEach_call (registered (onCallbacks m) (key state)) state (snd r2)
                else snd r2))"
  using assms
  by (simp add: go_def transitionTo_plain_currentState transitionTo_plain_world Let_def)

theorem enter_guards_run_after_failed_exit_witness:
  "canGo (guarded_fsm False True) Running \<and>
   plain_key (phase_key (currentState (guarded_fsm False True))) \<and>
   plain_key (phase_key Running) \<and>
   \<not> fst (reduce_guards (registered (exitCallbacks (guarded_fsm False True)) (phase_key Idle))
            Idle True []) \<and>
   currentState (fst (snd (go phase_key Running (guarded_fsm False True, [])))) = Idle \<and>
   snd (snd (go phase_key Running (guarded_fsm False True, []))) =
     [(1, Idle), (3, Idle), (4, Idle)]"
proof -
  have can: "canGo (guarded_fsm False True) Running"
    by (simp add: canGo_def validTransition_iff guarded_fsm_fields)
  have pA: "plain_key (phase_key (currentState (guarded_fsm False True)))"
    and pB: "plain_key (phase_key Running)"
    by (simp_all add: guarded_fsm_fields decimal_keys_plain)
  show ?thesis
    using enter_guards_run_after_failed_exit [OF can pA pB, of "[]"] can pA pB
    by (simp add: guarded_fsm_fields log_guard_def)
qed

text \<open>
  C10 as the specification states it, for every \<^verbatim>\<open>go\<close>, fails. From the state
  \<^verbatim>\<open>constructor\<close>, with the edge to \<^verbatim>\<open>b\<close> registered, no exit guard, and enter
  guards on \<^verbatim>\<open>b\<close> that return true, \<^verbatim>\<open>go\<close> of \<^verbatim>\<open>b\<close> throws where it reads the
  exit guards: no enter guard is called and there is no commit.
\<close>

theorem enter_guards_not_run_counterexample:
  "canGo constructor_to_b ''b'' \<and>
   currentState constructor_to_b = ''constructor'' \<and>
   registered (exitCallbacks constructor_to_b) (string_key ''constructor'') = [] \<and>
   registered (enterCallbacks constructor_to_b) (string_key ''b'') =
     [log_guard 2 True, log_guard 3 True] \<and>
   registered (onCallbacks constructor_to_b) (string_key ''b'') = [log_on 4] \<and>
   fst (go string_key ''b'' (constructor_to_b, [])) = Inl TypeError \<and>
   currentState (fst (snd (go string_key ''b'' (constructor_to_b, [])))) = ''constructor'' \<and>
   snd (snd (go string_key ''b'' (constructor_to_b, []))) = []"
proof -
  have "registered (enterCallbacks constructor_to_b) (string_key ''b'') =
     [log_guard 2 True, log_guard 3 True]"
    by (simp add: fsm_eval del: log_guard_def)
  moreover have "registered (onCallbacks constructor_to_b) (string_key ''b'') = [log_on 4]"
    by (simp add: fsm_eval del: log_on_def)
  moreover have "canGo constructor_to_b ''b''"
    by (simp add: fsm_eval)
  ultimately show ?thesis
    by (simp add: fsm_eval)
qed

text \<open>
  C7, as the code has it. \<^verbatim>\<open>go\<close> of the current state never raises the error for an
  undeclared transition, whatever the edges. When the key of the current state is plain,
  it raises no error at all: it folds the exit guards and then the enter guards
  registered under that key, and when both folds yield true it runs the on-commit
  callbacks registered under that key; the current state is the same afterwards.
\<close>

theorem self_transition_runs_guards:
  "(\<forall>s. fst (go key (currentState m) (m, w)) \<noteq> Inl (Error s)) \<and>
   (plain_key (key (currentState m)) \<longrightarrow>
      fst (go key (currentState m) (m, w)) = Inr () \<and>
      currentState (fst (snd (go key (currentState m) (m, w)))) = currentState m \<and>
      snd (snd (go key (currentState m) (m, w))) =
        (let s = currentState m;
             r1 = reduce_guards (registered (exitCallbacks m) (key s)) s True w;
             r2 = reduce_guards (registered (enterCallbacks m) (key s)) s True (snd r1)
         in if fst r1 \<and> fst r2
            then forEach_call (registered (onCallbacks m) (key s)) s (snd r2)
            else snd r2))"
  by (simp add: go_eq transitionTo_not_Error transitionTo_plain_result
        transitionTo_plain_currentState transitionTo_plain_world Let_def)

text \<open>
  At Running, without an edge from Running to itself, \<^verbatim>\<open>go(Running)\<close> runs the enter
  guards and the on-commit callbacks of Running once more. At Idle, the failing exit guard
  1 blocks the self-transition silently.
\<close>

theorem self_transition_runs_guards_witness:
  "currentState (fst (snd (go phase_key Running (guarded_fsm True True, [])))) = Running \<and>
   plain_key (phase_key Running) \<and>
   \<lparr>tf_from = Running, tf_to = Running\<rparr>
     \<notin> set (transitionFunctions (fst (snd (go phase_key Running (guarded_fsm True True, []))))) \<and>
   fst (go phase_key Running (snd (go phase_key Running (guarded_fsm True True, [])))) = Inr () \<and>
   snd (snd (go phase_key Running (snd (go phase_key Running (guarded_fsm True True, []))))) =
     [(1, Idle), (2, Idle), (3, Idle), (4, Idle), (5, Running), (6, Running),
      (3, Running), (4, Running), (5, Running), (6, Running)] \<and>
   snd (snd (go phase_key Idle (guarded_fsm False True, []))) = [(1, Idle)]"
proof -
  let ?c = "snd (go phase_key Running (guarded_fsm True True, []))"
  have cur: "currentState (fst ?c) = Running"
    by (simp add: fsm_eval)
  show ?thesis
    using self_transition_runs_guards [of phase_key "fst ?c" "snd ?c"]
      self_transition_runs_guards [of phase_key "guarded_fsm False True" "[]"]
    unfolding cur
    by (simp add: fsm_eval)
qed

text \<open>
  C7 as the specification states it, for every engine, fails. On an engine constructed at
  the state \<^verbatim>\<open>constructor\<close>, \<^verbatim>\<open>go\<close> of that state passes validation and throws
  where it reads the exit guards; no fold is evaluated. Nor can a guard be registered for
  that state: the calls leave the engine as it was constructed.
\<close>

theorem self_transition_raises_counterexample:
  "canGo (newFiniteStateMachine ''constructor'' :: (string, string log) FiniteStateMachine)
     ''constructor'' \<and>
   fst (go string_key ''constructor''
          (newFiniteStateMachine ''constructor'' :: (string, string log) FiniteStateMachine, [])) =
     Inl TypeError \<and>
   fst (perform_all string_key
          [Call_onExit ''constructor'' (log_guard 1 True), Call_go ''constructor'']
          (newFiniteStateMachine ''constructor'', [])) =
     (newFiniteStateMachine ''constructor'' :: (string, string log) FiniteStateMachine)"
  by (simp add: fsm_eval)

subsection \<open>Reset\<close>

text \<open>
  C8. Whatever calls were made on an engine since its construction with the start state
  \<open>s0\<close>, \<^verbatim>\<open>reset\<close> sets the current state to \<open>s0\<close> and changes nothing else: the other
  fields of the engine and the application state are as before, so no callback has run.
\<close>

theorem reset_returns_to_start:
  "(let c = perform_all key calls (newFiniteStateMachine s0, w)
    in reset c = ((fst c)\<lparr>currentState := s0\<rparr>, snd c))"
proof -
  define c where "c = perform_all key calls (newFiniteStateMachine s0, w)"
  have "startState (fst c) = s0"
    unfolding c_def by (simp add: perform_all_startState newFiniteStateMachine_def)
  then show ?thesis
    unfolding Let_def c_def [symmetric]
    by (cases c) (simp add: reset_def)
qed

theorem reset_returns_to_start_witness:
  "currentState (fst (perform_all phase_key example_calls (newFiniteStateMachine Idle, []))) =
     Running \<and>
   snd (perform_all phase_key example_calls (newFiniteStateMachine Idle, [])) = [(7, Running)] \<and>
   currentState (fst (reset (perform_all phase_key example_calls
                               (newFiniteStateMachine Idle, [])))) = Idle \<and>
   snd (reset (perform_all phase_key example_calls (newFiniteStateMachine Idle, []))) =
     [(7, Running)]"
proof -
  let ?c = "perform_all phase_key example_calls (newFiniteStateMachine Idle, [])"
  have cur: "currentState (fst ?c) = Running"
    by (simp add: fsm_eval)
  have log: "snd ?c = [(7, Running)]"
    by (simp add: fsm_eval)
  show ?thesis
    using reset_returns_to_start
      [where key = phase_key and calls = example_calls and ?s0.0 = Idle and w = "[]"]
    unfolding Let_def
    by (simp add: cur log)
qed

end
